theory Spec2Isabelle
  imports Main "HOL-Library.AList"
begin

section \<open>Python values\<close>

text \<open>
  A Python \<open>str\<close> is a sequence of Unicode code points; its length and its regular
  expressions count code points, so a string is a list of code points here.
  \<open>py\<close> reads an ASCII or Latin-1 literal as such a string.
\<close>

type_synonym codepoint = nat
type_synonym pystr = "codepoint list"

definition py :: "string \<Rightarrow> pystr" where
  "py s = map of_char s"

text \<open>
  The values a caller can pass where the code expects \<open>Optional[str]\<close>. \<open>PStr\<close> stands
  for every instance of \<open>str\<close>; floats are left out of the model.
\<close>

datatype pyval =
    PNone
  | PStr pystr
  | PBool bool
  | PInt int
  | PBytes "nat list"
  | PList "pyval list"
  | PTuple "pyval list"
  | PDict "(pyval \<times> pyval) list"

text \<open>\<open>type(v).__name__\<close>\<close>

fun type_name :: "pyval \<Rightarrow> pystr" where
  "type_name PNone = py ''NoneType''"
| "type_name (PStr _) = py ''str''"
| "type_name (PBool _) = py ''bool''"
| "type_name (PInt _) = py ''int''"
| "type_name (PBytes _) = py ''bytes''"
| "type_name (PList _) = py ''list''"
| "type_name (PTuple _) = py ''tuple''"
| "type_name (PDict _) = py ''dict''"

text \<open>
  \<open>repr\<close> of a string made of letters only, as the type names above are: the string
  between single quotes (code point 39).
\<close>

definition repr_name :: "pystr \<Rightarrow> pystr" where
  "repr_name n = [39] @ n @ [39]"

text \<open>
  \<open>Py_UNICODE_ISSPACE\<close>: the whitespace of \<open>str.strip()\<close>, \<open>str.isspace()\<close> and of
  \<open>\s\<close> in a \<open>str\<close> pattern.
\<close>

definition isspace :: "codepoint \<Rightarrow> bool" where
  "isspace c \<longleftrightarrow>
     (9 \<le> c \<and> c \<le> 13) \<or> (28 \<le> c \<and> c \<le> 32) \<or> c = 0x85 \<or> c = 0xA0 \<or> c = 0x1680
     \<or> (0x2000 \<le> c \<and> c \<le> 0x200A) \<or> c = 0x2028 \<or> c = 0x2029 \<or> c = 0x202F
     \<or> c = 0x205F \<or> c = 0x3000"

text \<open>\<open>str.strip()\<close> with no argument removes leading and trailing whitespace.\<close>

definition strip :: "pystr \<Rightarrow> pystr" where
  "strip s = rev (dropWhile isspace (rev (dropWhile isspace s)))"

section \<open>Exceptions\<close>

text \<open>
  A response of the HTTP transport: the status code and the body. The response belongs
  to the transport collaborator; the helper only reads its status.
\<close>

record response =
  status_code :: int
  content :: pystr

datatype error =
    TypeError pystr
  | ReError pystr
  | RequestException pystr
  | HTTPError response

section \<open>The regular expressions of the standard library\<close>

text \<open>
  The text cleaner hands two patterns to Python's \<open>re\<close> module: the constant
  \<open>\s{2,}\<close> and a negated character set built at run time. This section models
  \<open>re.escape\<close>, the pattern parser and \<open>re.sub\<close> for that fragment of the pattern
  language: one character set or \<open>\s\<close>, optionally repeated by \<open>{m,}\<close>. A pattern
  outside the fragment is an error of the model, so a result that is not an error never
  rests on a construct the model leaves out.
\<close>

text \<open>\<open>re.escape\<close> puts a backslash (code point 92) before each of these characters.\<close>

definition special_chars :: "codepoint list" where
  "special_chars = py ''()[]{}?*+-|^$'' @ [92] @ py ''.&~# '' @ [9, 10, 13, 11, 12]"

definition re_escape :: "pystr \<Rightarrow> pystr" where
  "re_escape s = concat (map (\<lambda>c. if c \<in> set special_chars then [92, c] else [c]) s)"

text \<open>
  The parser reads the pattern token by token: a backslash and the character after it
  form one token, every other character is a token of its own.
\<close>

datatype token = Ch codepoint | Esc codepoint

fun tokenize :: "pystr \<Rightarrow> error + token list" where
  "tokenize [] = Inr []"
| "tokenize (c # cs) =
     (if c = 92 then
        (case cs of
           [] \<Rightarrow> Inl (ReError (py ''bad escape (end of pattern)''))
         | d # ds \<Rightarrow> (case tokenize ds of Inl e \<Rightarrow> Inl e | Inr ts \<Rightarrow> Inr (Esc d # ts)))
      else (case tokenize cs of Inl e \<Rightarrow> Inl e | Inr ts \<Rightarrow> Inr (Ch c # ts)))"

text \<open>The parsed pattern: the members of a character set, a set with its negation flag,
  and a set matched once or at least \<open>m\<close> times (greedy).\<close>

datatype setitem = Literal codepoint | Range_item codepoint codepoint | Category_space

datatype charset = Charset bool "setitem list"

datatype regex = In charset | Max_repeat nat charset

definition ascii_letter :: "codepoint \<Rightarrow> bool" where
  "ascii_letter c \<longleftrightarrow> (65 \<le> c \<and> c \<le> 90) \<or> (97 \<le> c \<and> c \<le> 122)"

definition ascii_digit :: "codepoint \<Rightarrow> bool" where
  "ascii_digit c \<longleftrightarrow> 48 \<le> c \<and> c \<le> 57"

text \<open>
  An escape inside a character set. \<open>\a \b \f \n \r \t \v \\\<close> stand for one character,
  \<open>\s\<close> for the whitespace category, and a backslash before a character that is neither
  an ASCII letter nor a digit stands for that character. Python rejects the other escaped
  letters except \<open>\d \D \S \w \W \x \u \U \N\<close> and octal digits, which the
  model leaves out and rejects too.
\<close>

definition ESCAPES :: "(codepoint \<times> codepoint) list" where
  "ESCAPES = [(97, 7), (98, 8), (102, 12), (110, 10), (114, 13), (116, 9), (118, 11), (92, 92)]"

definition class_escape :: "codepoint \<Rightarrow> error + setitem" where
  "class_escape c =
     (case map_of ESCAPES c of
        Some l \<Rightarrow> Inr (Literal l)
      | None \<Rightarrow>
          if c = 115 then Inr Category_space
          else if ascii_letter c \<or> ascii_digit c then Inl (ReError (py ''bad escape''))
          else Inr (Literal c))"

definition set_code :: "token \<Rightarrow> error + setitem" where
  "set_code t = (case t of Ch c \<Rightarrow> Inr (Literal c) | Esc c \<Rightarrow> class_escape c)"

text \<open>
  The members of a character set, read after \<open>[\<close> and the optional \<open>^\<close>, up to the
  closing \<open>]\<close> (code point 93), which closes the set only when the set already has a
  member. A \<open>-\<close> (code point 45) after a member starts a range, unless \<open>]\<close> follows it.
\<close>

fun parse_set :: "setitem list \<Rightarrow> token list \<Rightarrow> error + (setitem list \<times> token list)" where
  "parse_set acc [] = Inl (ReError (py ''unterminated character set''))"
| "parse_set acc (this # ts) =
     (if this = Ch 93 \<and> acc \<noteq> [] then Inr (acc, ts)
      else
        (case set_code this of
           Inl e \<Rightarrow> Inl e
         | Inr code1 \<Rightarrow>
             (case ts of
                [] \<Rightarrow> parse_set (acc @ [code1]) ts
              | t # ts' \<Rightarrow>
                  if t \<noteq> Ch 45 then parse_set (acc @ [code1]) ts
                  else
                    (case ts' of
                       [] \<Rightarrow> Inl (ReError (py ''unterminated character set''))
                     | that # ts'' \<Rightarrow>
                         if that = Ch 93 then Inr (acc @ [code1, Literal 45], ts'')
                         else
                           (case set_code that of
                              Inl e \<Rightarrow> Inl e
                            | Inr code2 \<Rightarrow>
                                (case (code1, code2) of
                                   (Literal lo, Literal hi) \<Rightarrow>
                                     if hi < lo then Inl (ReError (py ''bad character range''))
                                     else parse_set (acc @ [Range_item lo hi]) ts''
                                 | _ \<Rightarrow> Inl (ReError (py ''bad character range''))))))))"

text \<open>
  What may follow the set: nothing, or \<open>{m,}\<close> (code points 123, 44, 125) with \<open>m\<close> in
  decimal digits, an absent \<open>m\<close> meaning 0.
\<close>

definition digit_token :: "token \<Rightarrow> bool" where
  "digit_token t = (case t of Ch c \<Rightarrow> ascii_digit c | Esc _ \<Rightarrow> False)"

definition int_of_digits :: "token list \<Rightarrow> nat" where
  "int_of_digits ds = foldl (\<lambda>n t. 10 * n + (case t of Ch c \<Rightarrow> c - 48 | Esc _ \<Rightarrow> 0)) 0 ds"

definition parse_repeat :: "charset \<Rightarrow> token list \<Rightarrow> error + regex" where
  "parse_repeat cs ts =
     (case ts of
        [] \<Rightarrow> Inr (In cs)
      | t # ts' \<Rightarrow>
          if t = Ch 123 \<and> dropWhile digit_token ts' = [Ch 44, Ch 125]
          then Inr (Max_repeat (int_of_digits (takeWhile digit_token ts')) cs)
          else Inl (ReError (py ''pattern outside the modelled fragment'')))"

definition parse :: "token list \<Rightarrow> error + regex" where
  "parse ts =
     (case ts of
        [] \<Rightarrow> Inl (ReError (py ''pattern outside the modelled fragment''))
      | Esc c # r \<Rightarrow>
          if c = 115 then parse_repeat (Charset False [Category_space]) r
          else Inl (ReError (py ''pattern outside the modelled fragment''))
      | Ch c # r \<Rightarrow>
          if c = 91 then
            (let negate = (take 1 r = [Ch 94]);
                 r' = (if negate then drop 1 r else r)
             in case parse_set [] r' of
                  Inl e \<Rightarrow> Inl e
                | Inr (items, rest) \<Rightarrow> parse_repeat (Charset negate items) rest)
          else Inl (ReError (py ''pattern outside the modelled fragment'')))"

definition re_compile :: "pystr \<Rightarrow> error + regex" where
  "re_compile pattern = (case tokenize pattern of Inl e \<Rightarrow> Inl e | Inr ts \<Rightarrow> parse ts)"

text \<open>Matching one character against a set.\<close>

fun item_matches :: "setitem \<Rightarrow> codepoint \<Rightarrow> bool" where
  "item_matches (Literal l) c = (c = l)"
| "item_matches (Range_item lo hi) c = (lo \<le> c \<and> c \<le> hi)"
| "item_matches Category_space c = isspace c"

fun in_charset :: "charset \<Rightarrow> codepoint \<Rightarrow> bool" where
  "in_charset (Charset negate items) c = (list_ex (\<lambda>i. item_matches i c) items \<noteq> negate)"

text \<open>
  The length of the match of the pattern at the start of the text, if it matches there.
  The repetition is greedy, and nothing follows it in the pattern, so it takes every
  character it can.
\<close>

fun match_at :: "regex \<Rightarrow> pystr \<Rightarrow> nat option" where
  "match_at (In cs) s =
     (case s of [] \<Rightarrow> None | c # _ \<Rightarrow> if in_charset cs c then Some 1 else None)"
| "match_at (Max_repeat m cs) s =
     (let k = length (takeWhile (in_charset cs) s) in if m \<le> k then Some k else None)"

text \<open>
  \<open>Pattern.sub\<close> with a replacement that holds no backslash (the two replacements of the
  module are \<open>" "\<close> and \<open>""\<close>): the text is scanned from the left; where the pattern
  matches, the replacement is written and the scan goes on after the match; elsewhere the
  character is copied. An empty match writes the replacement and copies the character.
\<close>

function pattern_sub :: "regex \<Rightarrow> pystr \<Rightarrow> pystr \<Rightarrow> pystr" where
  "pattern_sub r repl [] = (case match_at r [] of None \<Rightarrow> [] | Some _ \<Rightarrow> repl)"
| "pattern_sub r repl (c # cs) =
     (case match_at r (c # cs) of
        None \<Rightarrow> c # pattern_sub r repl cs
      | Some 0 \<Rightarrow> repl @ c # pattern_sub r repl cs
      | Some (Suc k) \<Rightarrow> repl @ pattern_sub r repl (drop k cs))"
  by pat_completeness auto
termination
  by (relation "measure (\<lambda>(r, repl, s). length s)") auto

text \<open>\<open>re.sub(pattern, repl, string)\<close> compiles the pattern first.\<close>

definition re_sub :: "pystr \<Rightarrow> pystr \<Rightarrow> pystr \<Rightarrow> error + pystr" where
  "re_sub pattern repl s =
     (case re_compile pattern of Inl e \<Rightarrow> Inl e | Inr r \<Rightarrow> Inr (pattern_sub r repl s))"

section \<open>The text cleaner (limpieza\_texto.py)\<close>

text \<open>
  A call may raise and may change the state of the program: a computation takes the
  state and returns an error or a value, with the state after the call. The two
  cleaning functions are pure (\<open>Pair r\<close> returns \<open>r\<close> and leaves the state as it is);
  the decorator wraps any function, also one with effects.
\<close>

type_synonym ('s, 'a) comp = "'s \<Rightarrow> (error + 'a) \<times> 's"

definition mensaje :: "pyval \<Rightarrow> pystr" where
  "mensaje texto =
     py ''Se esperaba 'str' o None, pero se recibi'' @ [0xF3] @ py '' ''
       @ repr_name (type_name texto)"

text \<open>
  \<open>decorador_validar_texto func\<close> is the wrapper: \<open>texto\<close> is its first argument and
  \<open>args\<close> the remaining ones, passed on unchanged.
\<close>

definition decorador_validar_texto ::
  "(pystr \<Rightarrow> 'args \<Rightarrow> ('s, 'r) comp) \<Rightarrow> pyval \<Rightarrow> 'args \<Rightarrow> ('s, 'r option) comp" where
  "decorador_validar_texto func texto args \<sigma> =
     (case texto of
        PNone \<Rightarrow> (Inr None, \<sigma>)
      | PStr s \<Rightarrow>
          (case func s args \<sigma> of
             (Inl e, \<sigma>') \<Rightarrow> (Inl e, \<sigma>')
           | (Inr r, \<sigma>') \<Rightarrow> (Inr (Some r), \<sigma>'))
      | _ \<Rightarrow> (Inl (TypeError (mensaje texto)), \<sigma>))"

text \<open>The pattern \<open>\s{2,}\<close>, compiled when the module is loaded.\<close>

definition PATRON_MULTIESPACIO :: "error + regex" where
  "PATRON_MULTIESPACIO = re_compile ([92] @ py ''s{2,}'')"

text \<open>The functions as written, before the decorator is applied.\<close>

definition limpiar_espacios_wrapped :: "pystr \<Rightarrow> error + pystr" where
  "limpiar_espacios_wrapped texto =
     (case PATRON_MULTIESPACIO of
        Inl e \<Rightarrow> Inl e
      | Inr patron \<Rightarrow> Inr (strip (pattern_sub patron (py '' '') texto)))"

definition limpiar_caracteres_wrapped :: "pystr \<Rightarrow> pystr list \<Rightarrow> error + pystr" where
  "limpiar_caracteres_wrapped texto permitir_caracter =
     (let caracteres_permitidos = re_escape (concat permitir_caracter);
          patron = py ''[^a-zA-Z0-9'' @ [92] @ py ''s'' @ caracteres_permitidos @ py '']''
      in re_sub patron [] texto)"

text \<open>The decorated functions, as the module exports them.\<close>

definition limpiar_espacios :: "pyval \<Rightarrow> ('s, pystr option) comp" where
  "limpiar_espacios texto =
     decorador_validar_texto (\<lambda>t (_ :: unit). Pair (limpiar_espacios_wrapped t)) texto ()"

definition limpiar_caracteres :: "pyval \<Rightarrow> pystr list \<Rightarrow> ('s, pystr option) comp" where
  "limpiar_caracteres texto permitir_caracter =
     decorador_validar_texto (\<lambda>t a. Pair (limpiar_caracteres_wrapped t a)) texto
       permitir_caracter"

text \<open>
  A stub for the wrapped function that counts its calls: the state is the number of
  calls made so far.
\<close>

definition counting_stub :: "pystr \<Rightarrow> 'args \<Rightarrow> (nat, pystr) comp" where
  "counting_stub texto args n = (Inr texto, Suc n)"

subsection \<open>The whitespace normalizer as the specification words it\<close>

text \<open>
  The text is cut into its maximal runs of characters that are all whitespace or all
  not whitespace; every whitespace run of two or more characters becomes one space
  (code point 32); then leading and trailing whitespace is removed.
\<close>

function runs :: "pystr \<Rightarrow> pystr list" where
  "runs [] = []"
| "runs (c # cs) =
     (c # takeWhile (\<lambda>d. isspace d = isspace c) cs)
       # runs (dropWhile (\<lambda>d. isspace d = isspace c) cs)"
  by pat_completeness auto
termination
  by (relation "measure length") (auto simp: length_dropWhile_le less_Suc_eq_le)

definition collapse_run :: "pystr \<Rightarrow> pystr" where
  "collapse_run run = (if 2 \<le> length run \<and> list_all isspace run then [32] else run)"

definition normalize_whitespace :: "pystr \<Rightarrow> pystr" where
  "normalize_whitespace s = strip (concat (map collapse_run (runs s)))"

section \<open>The HTTP request helper (cnx\_api.py)\<close>

text \<open>
  A header mapping is a Python dict, which keeps its items in insertion order: an
  association list with distinct keys. Dicts are objects: the heap holds them, and a
  variable holds the address of one, so that two variables may name the same dict.
\<close>

type_synonym pydict = "(pystr \<times> pystr) list"
type_synonym addr = nat
type_synonym heap = "pydict list"

text \<open>\<open>dict(m)\<close>: a new dict with the items of \<open>m\<close>.\<close>

definition dict_new :: "pydict \<Rightarrow> heap \<Rightarrow> addr \<times> heap" where
  "dict_new items h = (length h, h @ [items])"

text \<open>\<open>k in d\<close> and \<open>d[k] = v\<close> for the dict at address \<open>d\<close>.\<close>

definition dict_contains :: "heap \<Rightarrow> addr \<Rightarrow> pystr \<Rightarrow> bool" where
  "dict_contains h d k \<longleftrightarrow> k \<in> set (map fst (h ! d))"

definition dict_setitem :: "addr \<Rightarrow> pystr \<Rightarrow> pystr \<Rightarrow> heap \<Rightarrow> heap" where
  "dict_setitem d k v h = h[d := AList.update k v (h ! d)]"

text \<open>
  The request handed to the transport; \<open>req_headers\<close> is the address of the header dict.
  The timeout is a float that the helper only passes on: its type is left open.
\<close>

record 't request =
  req_method :: pystr
  req_url :: pystr
  req_params :: pyval
  req_json :: pyval
  req_headers :: addr
  req_timeout :: 't

text \<open>
  The transport (\<open>requests.request\<close>, or the \<open>request\<close> method of a session) reads the
  request and the heap, and returns a response or raises; \<open>'w\<close> is whatever state the
  transport keeps (the network, a connection pool, the call log of a stub).
\<close>

type_synonym ('t, 'w) transport = "'t request \<Rightarrow> heap \<Rightarrow> 'w \<Rightarrow> (error + response) \<times> 'w"

text \<open>
  Modelled from the spec: \<open>Response.raise_for_status\<close> belongs to the transport
  collaborator (the requests library), which is not part of the repository. The
  specification describes it as the response's "raise if status \<ge> 400" operation, and
  the comment above the call says the same.
\<close>

definition raise_for_status :: "response \<Rightarrow> error option" where
  "raise_for_status r = (if 400 \<le> status_code r then Some (HTTPError r) else None)"

text \<open>
  \<open>upper\<close> stands for \<open>str.upper\<close> and \<open>requests_request\<close> for the library's one-shot
  client. \<open>headers\<close> is \<open>None\<close> or the address of the caller's mapping, \<open>bearer_token\<close>
  is \<open>None\<close> or a string, \<open>session\<close> is \<open>None\<close> or a session's \<open>request\<close> method.
  The result comes with the heap and the transport's state after the call.
\<close>

definition request_api ::
  "(pystr \<Rightarrow> pystr) \<Rightarrow> ('t, 'w) transport \<Rightarrow> pystr \<Rightarrow> pystr \<Rightarrow> pyval \<Rightarrow> pyval \<Rightarrow> addr option
     \<Rightarrow> pystr option \<Rightarrow> ('t, 'w) transport option \<Rightarrow> 't \<Rightarrow> heap \<Rightarrow> 'w
     \<Rightarrow> (error + response) \<times> heap \<times> 'w" where
  "request_api upper requests_request method url params json_data headers bearer_token
       session timeout h w =
     (let method' = upper method;
          (final_headers, h1) =
             dict_new (case headers of
                         None \<Rightarrow> []
                       | Some a \<Rightarrow> if h ! a \<noteq> [] then h ! a else []) h;
          h2 = (case bearer_token of
                  None \<Rightarrow> h1
                | Some token \<Rightarrow>
                    if token \<noteq> [] \<and> \<not> dict_contains h1 final_headers (py ''Authorization'')
                    then dict_setitem final_headers (py ''Authorization'')
                           (py ''Bearer '' @ token) h1
                    else h1);
          request_func = (case session of Some s \<Rightarrow> s | None \<Rightarrow> requests_request);
          (result, w') =
             request_func
               \<lparr>req_method = method', req_url = url, req_params = params,
                req_json = json_data, req_headers = final_headers, req_timeout = timeout\<rparr>
               h2 w
      in case result of
           Inl e \<Rightarrow> (Inl e, h2, w')
         | Inr response \<Rightarrow>
             (case raise_for_status response of
                Some e \<Rightarrow> (Inl e, h2, w')
              | None \<Rightarrow> (Inr response, h2, w')))"

text \<open>
  A stub transport: it returns the given outcome and appends what it was sent, the
  request and the headers found at the request's address, to its log of calls.
\<close>

definition stub_transport ::
  "(error + response) \<Rightarrow> ('t, ('t request \<times> pydict) list) transport" where
  "stub_transport outcome req h log = (outcome, log @ [(req, h ! req_headers req)])"

section \<open>The character filter\<close>

text \<open>
  What \<open>re.escape\<close> writes is read back by the pattern parser as the characters
  themselves: an escaped character becomes one \<open>Esc\<close> token, which stands for that
  character inside a set, and no token of the escaped text closes the set or starts a
  range.
\<close>

lemma special_92: "92 \<in> set special_chars"
  by (simp add: special_chars_def)

lemma special_chars_eq:
  "special_chars = [40, 41, 91, 93, 123, 125, 63, 42, 43, 45, 124, 94, 36, 92, 46, 38, 126, 35, 32,
          9, 10, 13, 11, 12]"
  by (simp add: special_chars_def py_def)

lemma class_escape_all:
  "list_all (\<lambda>c. class_escape c = Inr (Literal c)) special_chars"
  by (simp add: special_chars_eq class_escape_def ESCAPES_def ascii_letter_def ascii_digit_def)

lemma class_escape_special:
  "c \<in> set special_chars \<Longrightarrow> class_escape c = Inr (Literal c)"
  using class_escape_all by (simp add: list_all_iff)

lemma special_45: "45 \<in> set special_chars"
  by (simp add: special_chars_eq)

lemma special_93: "93 \<in> set special_chars"
  by (simp add: special_chars_eq)

lemma re_escape_Cons:
  "re_escape (c # s) = (if c \<in> set special_chars then [92, c] else [c]) @ re_escape s"
  by (simp add: re_escape_def)

lemma tokenize_re_escape:
  "tokenize (re_escape s @ r) =
     (case tokenize r of
        Inl e \<Rightarrow> Inl e
      | Inr ts \<Rightarrow> Inr (map (\<lambda>c. if c \<in> set special_chars then Esc c else Ch c) s @ ts))"
proof (induction s)
  case Nil
  show ?case by (simp add: re_escape_def split: sum.split)
next
  case (Cons c s)
  show ?case
  proof (cases "c \<in> set special_chars")
    case True
    then show ?thesis using Cons.IH by (simp add: re_escape_Cons split: sum.split)
  next
    case False
    then have "c \<noteq> 92" using special_92 by auto
    then show ?thesis using False Cons.IH by (simp add: re_escape_Cons split: sum.split)
  qed
qed

lemma set_code_escaped:
  "set_code (if c \<in> set special_chars then Esc c else Ch c) = Inr (Literal c)"
  by (simp add: set_code_def class_escape_special)

lemma escaped_neq:
  "(if c \<in> set special_chars then Esc c else Ch c) \<noteq> Ch 45"
  "(if c \<in> set special_chars then Esc c else Ch c) \<noteq> Ch 93"
  using special_45 special_93 by auto

lemma parse_set_step:
  assumes "\<not> (this = Ch 93 \<and> acc \<noteq> [])" and "set_code this = Inr code1"
    and "ts = [] \<or> hd ts \<noteq> Ch 45"
  shows "parse_set acc (this # ts) = parse_set (acc @ [code1]) ts"
  using assms by (cases ts) auto

lemma parse_set_escaped:
  "acc \<noteq> [] \<Longrightarrow>
   parse_set acc (map (\<lambda>c. if c \<in> set special_chars then Esc c else Ch c) j @ [Ch 93])
     = Inr (acc @ map Literal j, [])"
proof (induction j arbitrary: acc)
  case Nil
  then show ?case by simp
next
  case (Cons c j)
  let ?tok = "\<lambda>c. if c \<in> set special_chars then Esc c else Ch c"
  have hd: "map ?tok j @ [Ch 93] = [] \<or> hd (map ?tok j @ [Ch 93]) \<noteq> Ch 45"
    using escaped_neq(1) by (cases j) simp_all
  have "parse_set acc (?tok c # (map ?tok j @ [Ch 93]))
          = parse_set (acc @ [Literal c]) (map ?tok j @ [Ch 93])"
    using escaped_neq(2) [of c] set_code_escaped [of c] hd by (intro parse_set_step) auto
  also have "\<dots> = Inr ((acc @ [Literal c]) @ map Literal j, [])"
    by (rule Cons.IH) simp
  finally show ?case by simp
qed

lemma parse_set_range:
  assumes "lo \<le> hi" and "lo \<noteq> 93" and "hi \<noteq> 93"
  shows "parse_set acc (Ch lo # Ch 45 # Ch hi # ts) = parse_set (acc @ [Range_item lo hi]) ts"
  using assms by (simp add: set_code_def)

lemma tokenize_patron:
  "tokenize (py ''[^a-zA-Z0-9'' @ [92] @ py ''s'' @ re_escape j @ py '']'') =
     Inr ([Ch 91, Ch 94, Ch 97, Ch 45, Ch 122, Ch 65, Ch 45, Ch 90, Ch 48, Ch 45, Ch 57, Esc 115]
          @ map (\<lambda>c. if c \<in> set special_chars then Esc c else Ch c) j @ [Ch 93])"
  by (simp add: py_def tokenize_re_escape)

lemma parse_set_patron:
  "parse_set [] ([Ch 97, Ch 45, Ch 122, Ch 65, Ch 45, Ch 90, Ch 48, Ch 45, Ch 57, Esc 115]
          @ map (\<lambda>c. if c \<in> set special_chars then Esc c else Ch c) j @ [Ch 93])
    = Inr ([Range_item 97 122, Range_item 65 90, Range_item 48 57, Category_space] @ map Literal j, [])"
proof -
  let ?rest = "map (\<lambda>c. if c \<in> set special_chars then Esc c else Ch c) j @ [Ch 93]"
  have hd: "?rest = [] \<or> hd ?rest \<noteq> Ch 45"
    using escaped_neq(1) by (cases j) simp_all
  have s: "set_code (Esc 115) = Inr Category_space"
    by (simp add: set_code_def class_escape_def ESCAPES_def)
  have "parse_set [] ([Ch 97, Ch 45, Ch 122, Ch 65, Ch 45, Ch 90, Ch 48, Ch 45, Ch 57, Esc 115] @ ?rest)
      = parse_set [Range_item 97 122, Range_item 65 90, Range_item 48 57] (Esc 115 # ?rest)"
    by (simp add: parse_set_range del: parse_set.simps)
  also have "\<dots> = parse_set ([Range_item 97 122, Range_item 65 90, Range_item 48 57] @ [Category_space]) ?rest"
    using s hd by (intro parse_set_step) auto
  also have "\<dots> = Inr (([Range_item 97 122, Range_item 65 90, Range_item 48 57] @ [Category_space]) @ map Literal j, [])"
    by (rule parse_set_escaped) simp
  finally show ?thesis by simp
qed

lemma re_compile_patron:
  "re_compile (py ''[^a-zA-Z0-9'' @ [92] @ py ''s'' @ re_escape j @ py '']'') =
     Inr (In (Charset True
            ([Range_item 97 122, Range_item 65 90, Range_item 48 57, Category_space] @ map Literal j)))"
  unfolding re_compile_def tokenize_patron
  using parse_set_patron [of j]
  by (simp add: parse_def parse_repeat_def del: parse_set.simps)

lemma in_charset_patron:
  "in_charset (Charset True
      (Range_item 97 122 # Range_item 65 90 # Range_item 48 57 # Category_space # map Literal j)) c
    \<longleftrightarrow> \<not> (ascii_letter c \<or> ascii_digit c \<or> isspace c \<or> c \<in> set j)"
  by (auto simp: list_ex_iff ascii_letter_def ascii_digit_def)

lemma pattern_sub_In_empty:
  "pattern_sub (In cs) [] s = filter (\<lambda>c. \<not> in_charset cs c) s"
  by (induction s) simp_all

lemma limpiar_caracteres_wrapped_filter:
  "limpiar_caracteres_wrapped texto permitir_caracter =
     Inr (filter (\<lambda>c. ascii_letter c \<or> ascii_digit c \<or> isspace c
                        \<or> c \<in> set (concat permitir_caracter)) texto)"
  unfolding limpiar_caracteres_wrapped_def Let_def re_sub_def re_compile_patron
  by (simp add: pattern_sub_In_empty in_charset_patron del: in_charset.simps)

lemma limpiar_caracteres_str:
  "limpiar_caracteres (PStr s) permitir_caracter \<sigma> =
     (Inr (Some (filter (\<lambda>c. ascii_letter c \<or> ascii_digit c \<or> isspace c
                                \<or> c \<in> set (concat permitir_caracter)) s)), \<sigma>)"
  by (simp add: limpiar_caracteres_def decorador_validar_texto_def
        limpiar_caracteres_wrapped_filter)

text \<open>
  Claim C1. For every string and every allow-list, \<open>limpiar_caracteres\<close> returns the
  characters of the string that are ASCII letters, digits, whitespace or occur in an
  entry of the allow-list, in their order, and removes all others (for an allow-list of
  single characters, the characters of its entries are its entries). The pattern is
  always accepted. The two examples of the specification follow: with \<open>_\<close> allowed,
  \<open>h\<close>, code point 233 (e with an acute accent), \<open>llo_world!\<close> becomes \<open>hllo_world\<close>, and with \<open>]\<close>, \<open>^\<close> and \<open>-\<close> allowed, \<open>a]b^c-d\<close> is unchanged.
\<close>

theorem strip_special_characters_filter:
  "limpiar_caracteres (PStr s) permitir_caracter \<sigma> =
     (Inr (Some (filter (\<lambda>c. ascii_letter c \<or> ascii_digit c \<or> isspace c
                                \<or> c \<in> set (concat permitir_caracter)) s)), \<sigma>)
   \<and> limpiar_caracteres (PStr (py (''h'' @ [CHR 0xE9] @ ''llo_world!''))) [py ''_''] \<sigma>
       = (Inr (Some (py ''hllo_world'')), \<sigma>)
   \<and> limpiar_caracteres (PStr (py ''a]b^c-d'')) [py '']'', py ''^'', py ''-''] \<sigma>
       = (Inr (Some (py ''a]b^c-d'')), \<sigma>)"
  by (simp add: limpiar_caracteres_str py_def ascii_letter_def ascii_digit_def isspace_def)

text \<open>
  Claim C9. Two allow-lists with the same entries, whatever the number of times and the
  order in which they are listed, give the same result on every first argument.
\<close>

theorem allow_list_duplicates:
  assumes "set permitir' = set permitir"
  shows "limpiar_caracteres texto permitir' \<sigma> = limpiar_caracteres texto permitir \<sigma>"
proof (cases texto)
  case (PStr s)
  have "set (concat permitir') = set (concat permitir)"
    using assms by simp
  then show ?thesis
    by (simp add: PStr limpiar_caracteres_str)
qed (simp_all add: limpiar_caracteres_def decorador_validar_texto_def)

theorem allow_list_duplicates_witness:
  "set [py ''-'', py ''_'', py ''_''] = set [py ''-'', py ''_'']
   \<and> limpiar_caracteres (PStr (py ''a_b-c!'')) [py ''-'', py ''_'', py ''_''] ()
       = limpiar_caracteres (PStr (py ''a_b-c!'')) [py ''-'', py ''_''] ()
   \<and> limpiar_caracteres (PStr (py ''a_b-c!'')) [py ''-'', py ''_''] () = (Inr (Some (py ''a_b-c'')), ())"
  using allow_list_duplicates [of "[py ''-'', py ''_'', py ''_'']" "[py ''-'', py ''_'']"
      "PStr (py ''a_b-c!'')" "()"]
  by (simp add: limpiar_caracteres_str py_def ascii_letter_def ascii_digit_def isspace_def)

section \<open>The whitespace normalizer\<close>

text \<open>
  The compiled pattern, and how the substitution moves over a character that is not
  whitespace, over a single whitespace character and over a run of two or more.
\<close>

lemma PATRON_MULTIESPACIO_eq:
  "PATRON_MULTIESPACIO = Inr (Max_repeat 2 (Charset False [Category_space]))"
  by (simp add: PATRON_MULTIESPACIO_def re_compile_def py_def parse_def parse_repeat_def
        digit_token_def int_of_digits_def ascii_digit_def)

lemma in_charset_space: "in_charset (Charset False [Category_space]) = isspace"
  by (rule ext) simp

lemma match_at_multiespacio:
  "match_at (Max_repeat 2 (Charset False [Category_space])) s =
     (if 2 \<le> length (takeWhile isspace s) then Some (length (takeWhile isspace s)) else None)"
  by (simp add: in_charset_space Let_def)

lemma sub_Nil [simp]:
  "pattern_sub (Max_repeat 2 (Charset False [Category_space])) repl [] = []"
  by (simp add: match_at_multiespacio)

lemma sub_nonspace [simp]:
  "\<not> isspace c \<Longrightarrow>
   pattern_sub (Max_repeat 2 (Charset False [Category_space])) repl (c # cs)
     = c # pattern_sub (Max_repeat 2 (Charset False [Category_space])) repl cs"
  by (simp add: match_at_multiespacio)

lemma sub_single:
  "isspace c \<Longrightarrow> cs = [] \<or> \<not> isspace (hd cs) \<Longrightarrow>
   pattern_sub (Max_repeat 2 (Charset False [Category_space])) repl (c # cs)
     = c # pattern_sub (Max_repeat 2 (Charset False [Category_space])) repl cs"
  by (cases cs) (auto simp: match_at_multiespacio)

lemma sub_run:
  "isspace c \<Longrightarrow> isspace d \<Longrightarrow>
   pattern_sub (Max_repeat 2 (Charset False [Category_space])) repl (c # d # cs)
     = repl @ pattern_sub (Max_repeat 2 (Charset False [Category_space])) repl
                (dropWhile isspace cs)"
  by (simp add: in_charset_space dropWhile_eq_drop)

lemma sub_nonspace_run:
  "pattern_sub (Max_repeat 2 (Charset False [Category_space])) repl s
     = takeWhile (\<lambda>d. \<not> isspace d) s
       @ pattern_sub (Max_repeat 2 (Charset False [Category_space])) repl
           (dropWhile (\<lambda>d. \<not> isspace d) s)"
  by (induction s) simp_all

lemma sub_collapse_runs:
  "pattern_sub (Max_repeat 2 (Charset False [Category_space])) [32] s
     = concat (map collapse_run (runs s))"
proof (induction s rule: runs.induct)
  case 1
  show ?case by simp
next
  case (2 c cs)
  let ?sub = "pattern_sub (Max_repeat 2 (Charset False [Category_space])) [32]"
  show ?case
  proof (cases "isspace c")
    case True
    then have same: "(\<lambda>d. isspace d = isspace c) = isspace" by auto
    have IH: "?sub (dropWhile isspace cs) = concat (map collapse_run (runs (dropWhile isspace cs)))"
      using "2.IH" by (simp only: same)
    have r: "runs (c # cs) = (c # takeWhile isspace cs) # runs (dropWhile isspace cs)"
      by (simp only: runs.simps same)
    show ?thesis
    proof (cases "cs = [] \<or> \<not> isspace (hd cs)")
      case single: True
      then have tw: "takeWhile isspace cs = []" and dw: "dropWhile isspace cs = cs"
        by (auto simp: takeWhile_eq_Nil_iff dropWhile_eq_self_iff)
      have "?sub (c # cs) = c # ?sub cs"
        using True single by (rule sub_single)
      moreover have "collapse_run [c] = [c]"
        by (simp add: collapse_run_def)
      ultimately show ?thesis
        using IH by (simp add: r tw dw del: pattern_sub.simps runs.simps)
    next
      case False
      then obtain d cs' where cs: "cs = d # cs'" and d: "isspace d"
        by (cases cs) auto
      have "?sub (c # cs) = [32] @ ?sub (dropWhile isspace cs')"
        unfolding cs using True d by (rule sub_run)
      moreover have "collapse_run (c # takeWhile isspace cs) = [32]"
        using True d by (auto simp: collapse_run_def cs list_all_iff dest: set_takeWhileD)
      moreover have "dropWhile isspace cs = dropWhile isspace cs'"
        using d by (simp add: cs)
      ultimately show ?thesis
        using IH by (simp add: r del: pattern_sub.simps runs.simps)
    qed
  next
    case False
    then have same: "(\<lambda>d. isspace d = isspace c) = (\<lambda>d. \<not> isspace d)" by auto
    have IH: "?sub (dropWhile (\<lambda>d. \<not> isspace d) cs)
                = concat (map collapse_run (runs (dropWhile (\<lambda>d. \<not> isspace d) cs)))"
      using "2.IH" by (simp only: same)
    have r: "runs (c # cs) = (c # takeWhile (\<lambda>d. \<not> isspace d) cs)
                               # runs (dropWhile (\<lambda>d. \<not> isspace d) cs)"
      by (simp only: runs.simps same)
    have "?sub (c # cs) = c # ?sub cs"
      using False by (rule sub_nonspace)
    moreover have "?sub cs = takeWhile (\<lambda>d. \<not> isspace d) cs @ ?sub (dropWhile (\<lambda>d. \<not> isspace d) cs)"
      by (rule sub_nonspace_run)
    moreover have "collapse_run (c # takeWhile (\<lambda>d. \<not> isspace d) cs)
                     = c # takeWhile (\<lambda>d. \<not> isspace d) cs"
      using False by (simp add: collapse_run_def)
    ultimately show ?thesis
      using IH by (simp add: r del: pattern_sub.simps runs.simps)
  qed
qed

lemma limpiar_espacios_wrapped_eq:
  "limpiar_espacios_wrapped s =
     Inr (strip (pattern_sub (Max_repeat 2 (Charset False [Category_space])) [32] s))"
  by (simp add: limpiar_espacios_wrapped_def PATRON_MULTIESPACIO_eq py_def)

lemma limpiar_espacios_str:
  "limpiar_espacios (PStr s) \<sigma> =
     (Inr (Some (strip (pattern_sub (Max_repeat 2 (Charset False [Category_space])) [32] s))), \<sigma>)"
  by (simp add: limpiar_espacios_def decorador_validar_texto_def limpiar_espacios_wrapped_eq)

lemma normalize_example:
  "strip (pattern_sub (Max_repeat 2 (Charset False [Category_space])) [32]
            (py ''  a   b'' @ [9, 9] @ py ''c  '')) = py ''a b c''"
  by (simp add: py_def isspace_def strip_def)

text \<open>
  Claim C2. For every string, \<open>limpiar_espacios\<close> returns the string in which every
  maximal run of two or more whitespace characters has become one space, with leading
  and trailing whitespace removed afterwards (\<open>normalize_whitespace\<close>, written from the
  words of the specification). The example: two spaces, \<open>a\<close>, three spaces, \<open>b\<close>, two
  tabs, \<open>c\<close>, two spaces becomes \<open>a b c\<close>.
\<close>

theorem normalize_whitespace_refines:
  "limpiar_espacios (PStr s) \<sigma> = (Inr (Some (normalize_whitespace s)), \<sigma>)
   \<and> limpiar_espacios (PStr (py ''  a   b'' @ [9, 9] @ py ''c  '')) \<sigma>
       = (Inr (Some (py ''a b c'')), \<sigma>)"
  by (simp only: limpiar_espacios_str sub_collapse_runs [symmetric] normalize_whitespace_def
        normalize_example simp_thms)

subsection \<open>Idempotence\<close>

text \<open>
  After the substitution no two whitespace characters are adjacent; \<open>strip\<close> keeps
  that and leaves no whitespace at either end; and a string of that shape is a fixed
  point of both the substitution and \<open>strip\<close>.
\<close>

lemma sub_hd:
  assumes "s = [] \<or> \<not> isspace (hd s)"
  shows "pattern_sub (Max_repeat 2 (Charset False [Category_space])) repl s = []
         \<or> \<not> isspace (hd (pattern_sub (Max_repeat 2 (Charset False [Category_space])) repl s))"
  using assms by (cases s) auto

lemma sub_no_runs:
  "successively (\<lambda>a b. \<not> (isspace a \<and> isspace b))
     (pattern_sub (Max_repeat 2 (Charset False [Category_space])) [32] s)"
proof (induction "length s" arbitrary: s rule: less_induct)
  case less
  let ?sub = "pattern_sub (Max_repeat 2 (Charset False [Category_space])) [32]"
  let ?Q = "\<lambda>a b. \<not> (isspace a \<and> isspace b)"
  show ?case
  proof (cases s)
    case Nil
    then show ?thesis by simp
  next
    case (Cons c cs)
    have IH: "successively ?Q (?sub cs)"
      using less [of cs] by (simp add: Cons)
    show ?thesis
    proof (cases "isspace c")
      case False
      then show ?thesis
        using IH by (simp add: Cons successively_Cons)
    next
      case True
      show ?thesis
      proof (cases "cs = [] \<or> \<not> isspace (hd cs)")
        case single: True
        have "?sub (c # cs) = c # ?sub cs"
          using True single by (rule sub_single)
        moreover have "?sub cs = [] \<or> \<not> isspace (hd (?sub cs))"
          using single by (rule sub_hd)
        ultimately show ?thesis
          using IH by (auto simp: Cons successively_Cons simp del: pattern_sub.simps)
      next
        case False
        then obtain d cs' where cs: "cs = d # cs'" and d: "isspace d"
          by (cases cs) auto
        let ?rest = "dropWhile isspace cs'"
        have eq: "?sub (c # cs) = [32] @ ?sub ?rest"
          unfolding cs using True d by (rule sub_run)
        have "length ?rest < length s"
          by (simp add: Cons cs length_dropWhile_le less_Suc_eq_le le_SucI)
        then have "successively ?Q (?sub ?rest)"
          by (rule less)
        moreover have "?rest = [] \<or> \<not> isspace (hd ?rest)"
          using hd_dropWhile [of isspace cs'] by auto
        then have "?sub ?rest = [] \<or> \<not> isspace (hd (?sub ?rest))"
          by (rule sub_hd)
        ultimately show ?thesis
          by (auto simp: Cons eq successively_Cons simp del: pattern_sub.simps)
      qed
    qed
  qed
qed

lemma sub_fixed:
  "successively (\<lambda>a b. \<not> (isspace a \<and> isspace b)) t \<Longrightarrow>
   pattern_sub (Max_repeat 2 (Charset False [Category_space])) repl t = t"
proof (induction t)
  case Nil
  show ?case by simp
next
  case (Cons c cs)
  then have IH: "pattern_sub (Max_repeat 2 (Charset False [Category_space])) repl cs = cs"
    by (auto simp: successively_Cons)
  show ?case
  proof (cases "isspace c")
    case False
    then show ?thesis using IH by simp
  next
    case True
    then have "cs = [] \<or> \<not> isspace (hd cs)"
      using Cons.prems by (auto simp: successively_Cons)
    with True have "pattern_sub (Max_repeat 2 (Charset False [Category_space])) repl (c # cs)
        = c # pattern_sub (Max_repeat 2 (Charset False [Category_space])) repl cs"
      by (rule sub_single)
    then show ?thesis using IH by simp
  qed
qed

lemma successively_dropWhile:
  "successively Q xs \<Longrightarrow> successively Q (dropWhile P xs)"
proof -
  assume "successively Q xs"
  then have "successively Q (takeWhile P xs @ dropWhile P xs)" by simp
  then show ?thesis unfolding successively_append_iff by blast
qed

lemma successively_strip:
  assumes "successively (\<lambda>a b. \<not> (isspace a \<and> isspace b)) t"
  shows "successively (\<lambda>a b. \<not> (isspace a \<and> isspace b)) (strip t)"
proof -
  have sym: "(\<lambda>x y. \<not> (isspace y \<and> isspace x)) = (\<lambda>a b. \<not> (isspace a \<and> isspace b))"
    by auto
  have "successively (\<lambda>a b. \<not> (isspace a \<and> isspace b)) (dropWhile isspace t)"
    using assms by (rule successively_dropWhile)
  then have "successively (\<lambda>a b. \<not> (isspace a \<and> isspace b)) (rev (dropWhile isspace t))"
    by (simp only: successively_rev sym)
  then have "successively (\<lambda>a b. \<not> (isspace a \<and> isspace b))
               (dropWhile isspace (rev (dropWhile isspace t)))"
    by (rule successively_dropWhile)
  then show ?thesis
    by (simp only: strip_def successively_rev sym)
qed

lemma hd_strip_right:
  assumes "dropWhile P (rev y) \<noteq> []"
  shows "hd (rev (dropWhile P (rev y))) = hd y"
proof -
  have "rev (takeWhile P (rev y) @ dropWhile P (rev y)) = y"
    by (simp only: takeWhile_dropWhile_id rev_rev_ident)
  then have "rev (dropWhile P (rev y)) @ rev (takeWhile P (rev y)) = y"
    by (simp only: rev_append)
  then have "hd y = hd (rev (dropWhile P (rev y)) @ rev (takeWhile P (rev y)))"
    by (rule arg_cong [OF sym])
  also have "\<dots> = hd (rev (dropWhile P (rev y)))"
    using assms by (intro hd_append2) (simp only: rev_is_Nil_conv not_False_eq_True)
  finally show ?thesis by (rule sym)
qed

lemma strip_ends:
  "strip t = [] \<or> (\<not> isspace (hd (strip t)) \<and> \<not> isspace (last (strip t)))"
proof (cases "dropWhile isspace (rev (dropWhile isspace t)) = []")
  case True
  then have "strip t = []" by (simp only: strip_def rev.simps)
  then show ?thesis by (rule disjI1)
next
  case False
  let ?y = "dropWhile isspace t"
  let ?z = "dropWhile isspace (rev ?y)"
  have "\<not> isspace (hd ?z)" using False by (rule hd_dropWhile)
  moreover have "last (rev ?z) = hd ?z" by (rule last_rev)
  ultimately have l: "\<not> isspace (last (rev ?z))" by simp
  have "?y \<noteq> []"
  proof
    assume "?y = []"
    then have "?z = []" by (simp only: rev.simps dropWhile.simps)
    with False show False by (rule notE)
  qed
  then have "\<not> isspace (hd ?y)" by (rule hd_dropWhile)
  moreover have "hd (rev ?z) = hd ?y" using False by (rule hd_strip_right)
  ultimately have "\<not> isspace (hd (rev ?z))" by simp
  with l have "\<not> isspace (hd (strip t)) \<and> \<not> isspace (last (strip t))"
    unfolding strip_def by (rule conjI [rotated])
  then show ?thesis by (rule disjI2)
qed

lemma strip_fixed:
  assumes "u = [] \<or> (\<not> isspace (hd u) \<and> \<not> isspace (last u))"
  shows "strip u = u"
proof (cases "u = []")
  case True
  then show ?thesis by (simp add: strip_def)
next
  case False
  then have h: "\<not> isspace (hd u)" and l: "\<not> isspace (last u)" using assms by auto
  have "dropWhile isspace u = u"
    using h by (simp add: dropWhile_eq_self_iff)
  moreover have "dropWhile isspace (rev u) = rev u"
    using l by (simp add: dropWhile_eq_self_iff hd_rev)
  ultimately show ?thesis by (simp add: strip_def)
qed

text \<open>
  Claim C3. \<open>limpiar_espacios\<close> is idempotent: on every string it returns a string,
  and applied to that string it returns it unchanged.
\<close>

theorem normalize_whitespace_idempotent:
  "\<exists>t. limpiar_espacios (PStr s) \<sigma> = (Inr (Some t), \<sigma>)
       \<and> limpiar_espacios (PStr t) \<sigma> = (Inr (Some t), \<sigma>)"
proof -
  let ?sub = "pattern_sub (Max_repeat 2 (Charset False [Category_space])) [32]"
  let ?t = "strip (?sub s)"
  have "successively (\<lambda>a b. \<not> (isspace a \<and> isspace b)) ?t"
    using sub_no_runs by (rule successively_strip)
  then have "?sub ?t = ?t" by (rule sub_fixed)
  moreover have "strip ?t = ?t"
    using strip_ends by (rule strip_fixed)
  ultimately have "limpiar_espacios (PStr ?t) \<sigma> = (Inr (Some ?t), \<sigma>)"
    by (simp only: limpiar_espacios_str)
  moreover have "limpiar_espacios (PStr s) \<sigma> = (Inr (Some ?t), \<sigma>)"
    by (rule limpiar_espacios_str)
  ultimately show ?thesis
    by (intro exI [of _ ?t] conjI)
qed

section \<open>The input guard\<close>

text \<open>
  Claim C4. When the first argument is \<open>None\<close>, the wrapper returns \<open>None\<close> and does not
  call the wrapped function: whatever that function is and whatever it would do to the
  state, the state after the call is the state before it; in particular the counter of
  the counting stub keeps its value. So do \<open>limpiar_espacios\<close> and
  \<open>limpiar_caracteres\<close>.
\<close>

theorem guard_absent:
  "decorador_validar_texto func PNone args \<sigma> = (Inr None, \<sigma>)
   \<and> decorador_validar_texto counting_stub PNone args n = (Inr None, n)
   \<and> limpiar_espacios PNone \<sigma>' = (Inr None, \<sigma>')
   \<and> limpiar_caracteres PNone permitir_caracter \<sigma>'' = (Inr None, \<sigma>'')"
  by (simp add: decorador_validar_texto_def limpiar_espacios_def limpiar_caracteres_def)

text \<open>
  Claim C5. When the first argument is neither \<open>None\<close> nor a string, the wrapper raises
  \<open>TypeError\<close> with a message that ends in the name of the argument's type, and does not
  call the wrapped function: the state is unchanged, and the counting stub's counter
  keeps its value. So do \<open>limpiar_espacios\<close> and \<open>limpiar_caracteres\<close>.
\<close>

theorem guard_type_error:
  assumes "texto \<noteq> PNone" and "\<forall>s. texto \<noteq> PStr s"
  shows "decorador_validar_texto func texto args \<sigma> = (Inl (TypeError (mensaje texto)), \<sigma>)
   \<and> decorador_validar_texto counting_stub texto args n = (Inl (TypeError (mensaje texto)), n)
   \<and> limpiar_espacios texto \<sigma>' = (Inl (TypeError (mensaje texto)), \<sigma>')
   \<and> limpiar_caracteres texto permitir_caracter \<sigma>'' = (Inl (TypeError (mensaje texto)), \<sigma>'')
   \<and> mensaje texto = py ''Se esperaba 'str' o None, pero se recibi'' @ [0xF3] @ py '' ''
       @ repr_name (type_name texto)"
  using assms
  by (cases texto)
     (simp_all add: decorador_validar_texto_def limpiar_espacios_def limpiar_caracteres_def
        mensaje_def)

theorem guard_type_error_witness:
  "PInt 5 \<noteq> PNone \<and> (\<forall>s. PInt 5 \<noteq> PStr s)
   \<and> decorador_validar_texto counting_stub (PInt 5) () 0
       = (Inl (TypeError (py ''Se esperaba 'str' o None, pero se recibi'' @ [0xF3]
                            @ py '' '' @ [39] @ py ''int'' @ [39])), 0)
   \<and> limpiar_espacios (PInt 5) ()
       = (Inl (TypeError (py ''Se esperaba 'str' o None, pero se recibi'' @ [0xF3]
                            @ py '' '' @ [39] @ py ''int'' @ [39])), ())"
  using guard_type_error [where texto = "PInt 5" and func = counting_stub and \<sigma> = 0
      and n = 0 and args = "()" and \<sigma>' = "()" and permitir_caracter = "[]" and \<sigma>'' = "()"]
  by (simp add: mensaje_def repr_name_def py_def)

section \<open>The HTTP request helper\<close>

text \<open>
  The call written out: the heap gains one dict, the copy of the caller's headers with
  the Authorization header added when the token is a non-empty string and the key is
  absent; the transport is called once, with the address of that copy; the result is the
  transport's error, or the error of \<open>raise_for_status\<close>, or the response.
\<close>

lemma update_absent:
  "k \<notin> fst ` set al \<Longrightarrow> AList.update k v al = al @ [(k, v)]"
  by (induction al) auto

lemma request_api_eq:
  "request_api upper rr m u p j headers tok sess timeout h w =
     (let caller = (case headers of None \<Rightarrow> [] | Some a \<Rightarrow> h ! a);
          d = (case tok of
                 None \<Rightarrow> caller
               | Some t \<Rightarrow>
                   if t \<noteq> [] \<and> py ''Authorization'' \<notin> fst ` set caller
                   then caller @ [(py ''Authorization'', py ''Bearer '' @ t)]
                   else caller);
          send = (case sess of Some s \<Rightarrow> s | None \<Rightarrow> rr);
          (r, w') = send \<lparr>req_method = upper m, req_url = u, req_params = p, req_json = j,
                           req_headers = length h, req_timeout = timeout\<rparr> (h @ [d]) w
      in (case r of
            Inl e \<Rightarrow> Inl e
          | Inr resp \<Rightarrow> if 400 \<le> status_code resp then Inl (HTTPError resp) else Inr resp,
          h @ [d], w'))"
proof -
  have caller: "(case headers of None \<Rightarrow> [] | Some a \<Rightarrow> if h ! a \<noteq> [] then h ! a else [])
      = (case headers of None \<Rightarrow> [] | Some a \<Rightarrow> h ! a)"
    by (simp split: option.split)
  show ?thesis
    unfolding request_api_def caller
    by (simp add: dict_new_def dict_contains_def dict_setitem_def raise_for_status_def
          update_absent Let_def split: option.split prod.split sum.split)
qed

lemma request_api_stub:
  assumes "(case sess of Some s \<Rightarrow> s | None \<Rightarrow> rr) = stub_transport outcome"
  shows "request_api upper rr m u p j headers tok sess timeout h log =
     (let caller = (case headers of None \<Rightarrow> [] | Some a \<Rightarrow> h ! a);
          d = (case tok of
                 None \<Rightarrow> caller
               | Some t \<Rightarrow>
                   if t \<noteq> [] \<and> py ''Authorization'' \<notin> fst ` set caller
                   then caller @ [(py ''Authorization'', py ''Bearer '' @ t)]
                   else caller)
      in (case outcome of
            Inl e \<Rightarrow> Inl e
          | Inr resp \<Rightarrow> if 400 \<le> status_code resp then Inl (HTTPError resp) else Inr resp,
          h @ [d],
          log @ [(\<lparr>req_method = upper m, req_url = u, req_params = p, req_json = j,
                   req_headers = length h, req_timeout = timeout\<rparr>, d)]))"
  unfolding request_api_eq assms
  by (simp add: stub_transport_def Let_def)

lemma map_of_snoc_absent:
  assumes "k \<notin> fst ` set al"
  shows "map_of (al @ [(k, v)]) k = Some v"
proof -
  have "map_of al k = None" using assms by (simp add: map_of_eq_None_iff)
  then show ?thesis by (simp add: map_add_def)
qed

lemma request_api_stub_log:
  assumes "(case session of Some s \<Rightarrow> s | None \<Rightarrow> requests_request) = stub_transport outcome"
    and "d = (case bearer_token of
                None \<Rightarrow> (case headers of None \<Rightarrow> [] | Some a \<Rightarrow> h ! a)
              | Some t \<Rightarrow>
                  if t \<noteq> [] \<and> py ''Authorization''
                                 \<notin> fst ` set (case headers of None \<Rightarrow> [] | Some a \<Rightarrow> h ! a)
                  then (case headers of None \<Rightarrow> [] | Some a \<Rightarrow> h ! a)
                         @ [(py ''Authorization'', py ''Bearer '' @ t)]
                  else (case headers of None \<Rightarrow> [] | Some a \<Rightarrow> h ! a))"
  shows "snd (snd (request_api upper requests_request http_method url params json_data
                     headers bearer_token session timeout h log))
           = log @ [(\<lparr>req_method = upper http_method, req_url = url, req_params = params,
                      req_json = json_data, req_headers = length h,
                      req_timeout = timeout\<rparr>, d)]"
  unfolding request_api_stub [OF assms(1)] assms(2) Let_def by (simp only: snd_conv)

text \<open>
  Claim C6, as the code has it. Seen from a stub transport: when the bearer token is a
  string that is not empty and the caller's headers have no key \<open>Authorization\<close>, the
  headers handed to the transport map \<open>Authorization\<close> to \<open>Bearer\<close>, a space and the
  token; when the caller's headers have the key \<open>Authorization\<close>, the headers handed to
  the transport map it to the caller's value.
\<close>

theorem bearer_header_injected:
  assumes "(case session of Some s \<Rightarrow> s | None \<Rightarrow> requests_request) = stub_transport outcome"
    and "caller = (case headers of None \<Rightarrow> [] | Some a \<Rightarrow> h ! a)"
  shows "(bearer_token = Some t \<and> t \<noteq> [] \<and> py ''Authorization'' \<notin> fst ` set caller \<longrightarrow>
            (\<exists>req d. snd (snd (request_api upper requests_request http_method url params json_data
                                   headers bearer_token session timeout h log))
                        = log @ [(req, d)]
                     \<and> map_of d (py ''Authorization'') = Some (py ''Bearer '' @ t)))
       \<and> (map_of caller (py ''Authorization'') = Some v \<longrightarrow>
            (\<exists>req d. snd (snd (request_api upper requests_request http_method url params json_data
                                   headers bearer_token session timeout h log))
                        = log @ [(req, d)]
                     \<and> map_of d (py ''Authorization'') = Some v))"
proof (intro conjI impI)
  assume a: "bearer_token = Some t \<and> t \<noteq> [] \<and> py ''Authorization'' \<notin> fst ` set caller"
  let ?d = "caller @ [(py ''Authorization'', py ''Bearer '' @ t)]"
  have "snd (snd (request_api upper requests_request http_method url params json_data
                                   headers bearer_token session timeout h log))
          = log @ [(\<lparr>req_method = upper http_method, req_url = url, req_params = params,
                      req_json = json_data, req_headers = length h,
                      req_timeout = timeout\<rparr>, ?d)]"
    using a by (intro request_api_stub_log [OF assms(1)]) (simp add: assms(2))
  moreover have "map_of ?d (py ''Authorization'') = Some (py ''Bearer '' @ t)"
    using a by (intro map_of_snoc_absent) simp
  ultimately show "\<exists>req d. snd (snd (request_api upper requests_request http_method url params
                                   json_data headers bearer_token session timeout h log))
                        = log @ [(req, d)]
                     \<and> map_of d (py ''Authorization'') = Some (py ''Bearer '' @ t)"
    by blast
next
  assume v: "map_of caller (py ''Authorization'') = Some v"
  then have "map_of caller (py ''Authorization'') \<noteq> None" by simp
  then have "py ''Authorization'' \<in> fst ` set caller"
    by (simp add: map_of_eq_None_iff)
  then have "snd (snd (request_api upper requests_request http_method url params json_data
                                   headers bearer_token session timeout h log))
          = log @ [(\<lparr>req_method = upper http_method, req_url = url, req_params = params,
                      req_json = json_data, req_headers = length h,
                      req_timeout = timeout\<rparr>, caller)]"
    by (intro request_api_stub_log [OF assms(1)]) (simp add: assms(2) split: option.split)
  with v show "\<exists>req d. snd (snd (request_api upper requests_request http_method url params
                                   json_data headers bearer_token session timeout h log))
                        = log @ [(req, d)]
                     \<and> map_of d (py ''Authorization'') = Some v"
    by blast
qed

theorem bearer_header_injected_witness:
  "(\<exists>req d. snd (snd (request_api id (stub_transport (Inr \<lparr>status_code = 200, content = []\<rparr>))
                 (py ''GET'') (py ''http://h/r'') PNone PNone (Some 0) (Some (py ''X'')) None
                 (15 :: nat) [[(py ''Accept'', py ''text/plain'')]] []))
              = [(req, d)]
            \<and> map_of d (py ''Authorization'') = Some (py ''Bearer X''))
   \<and> (\<exists>req d. snd (snd (request_api id (stub_transport (Inr \<lparr>status_code = 200, content = []\<rparr>))
                 (py ''GET'') (py ''http://h/r'') PNone PNone (Some 0) (Some (py ''X'')) None
                 (15 :: nat) [[(py ''Authorization'', py ''Basic abc'')]] []))
              = [(req, d)]
            \<and> map_of d (py ''Authorization'') = Some (py ''Basic abc''))"
  using
    bearer_header_injected [where session = None
      and requests_request = "stub_transport (Inr \<lparr>status_code = 200, content = []\<rparr>)"
      and outcome = "Inr \<lparr>status_code = 200, content = []\<rparr>"
      and headers = "Some 0" and h = "[[(py ''Accept'', py ''text/plain'')]]"
      and caller = "[(py ''Accept'', py ''text/plain'')]"
      and bearer_token = "Some (py ''X'')" and t = "py ''X''" and v = "[]"
      and upper = id and http_method = "py ''GET''" and url = "py ''http://h/r''"
      and params = PNone and json_data = PNone and timeout = "15 :: nat" and log = "[]"]
    bearer_header_injected [where session = None
      and requests_request = "stub_transport (Inr \<lparr>status_code = 200, content = []\<rparr>)"
      and outcome = "Inr \<lparr>status_code = 200, content = []\<rparr>"
      and headers = "Some 0" and h = "[[(py ''Authorization'', py ''Basic abc'')]]"
      and caller = "[(py ''Authorization'', py ''Basic abc'')]"
      and bearer_token = "Some (py ''X'')" and t = "py ''X''" and v = "py ''Basic abc''"
      and upper = id and http_method = "py ''GET''" and url = "py ''http://h/r''"
      and params = PNone and json_data = PNone and timeout = "15 :: nat" and log = "[]"]
  by (simp add: py_def)

text \<open>
  The claim as stated, for every token that is provided, fails for the empty string:
  with no headers and the token \<open>""\<close>, the stub is handed an empty header dict.
\<close>

theorem bearer_empty_token_counterexample:
  "request_api id (stub_transport (Inr \<lparr>status_code = 200, content = []\<rparr>))
       (py ''GET'') (py ''http://h/r'') PNone PNone None (Some []) None (15 :: nat) [] []
     = (Inr \<lparr>status_code = 200, content = []\<rparr>, [[]],
        [(\<lparr>req_method = py ''GET'', req_url = py ''http://h/r'', req_params = PNone,
           req_json = PNone, req_headers = 0, req_timeout = 15\<rparr>, [])])"
  by (simp add: request_api_stub)

text \<open>
  Claim C7. Against a stub transport: a response with a status code of 400 or more
  makes the helper raise \<open>HTTPError\<close> carrying that response; a response with status
  200 is returned as it is; an error of the transport is raised as it is; and in every
  case the transport has been called exactly once, so nothing is retried.
\<close>

theorem status_error_no_retry:
  assumes "(case session of Some s \<Rightarrow> s | None \<Rightarrow> requests_request) = stub_transport outcome"
  shows "(outcome = Inr resp \<and> 400 \<le> status_code resp \<longrightarrow>
            fst (request_api upper requests_request http_method url params json_data headers
                   bearer_token session timeout h log) = Inl (HTTPError resp))
       \<and> (outcome = Inr resp \<and> status_code resp = 200 \<longrightarrow>
            fst (request_api upper requests_request http_method url params json_data headers
                   bearer_token session timeout h log) = Inr resp)
       \<and> (outcome = Inl e \<longrightarrow>
            fst (request_api upper requests_request http_method url params json_data headers
                   bearer_token session timeout h log) = Inl e)
       \<and> length (snd (snd (request_api upper requests_request http_method url params json_data
                              headers bearer_token session timeout h log)))
           = Suc (length log)"
  unfolding request_api_stub [OF assms] Let_def by simp

theorem status_error_no_retry_witness:
  "request_api id (stub_transport (Inr \<lparr>status_code = 500, content = py ''oops''\<rparr>))
       (py ''GET'') (py ''http://h/r'') PNone PNone None None None (15 :: nat) [] []
     = (Inl (HTTPError \<lparr>status_code = 500, content = py ''oops''\<rparr>), [[]],
        [(\<lparr>req_method = py ''GET'', req_url = py ''http://h/r'', req_params = PNone,
           req_json = PNone, req_headers = 0, req_timeout = 15\<rparr>, [])])
   \<and> fst (request_api id (stub_transport (Inr \<lparr>status_code = 500, content = py ''oops''\<rparr>))
       (py ''GET'') (py ''http://h/r'') PNone PNone None None None (15 :: nat) [] [])
     = Inl (HTTPError \<lparr>status_code = 500, content = py ''oops''\<rparr>)
   \<and> fst (request_api id (stub_transport (Inr \<lparr>status_code = 200, content = py ''ok''\<rparr>))
       (py ''GET'') (py ''http://h/r'') PNone PNone None None None (15 :: nat) [] [])
     = Inr \<lparr>status_code = 200, content = py ''ok''\<rparr>
   \<and> length (snd (snd (request_api id
         (stub_transport (Inr \<lparr>status_code = 500, content = py ''oops''\<rparr>))
         (py ''GET'') (py ''http://h/r'') PNone PNone None None None (15 :: nat) [] []))) = 1"
  using
    status_error_no_retry [where session = None
      and requests_request = "stub_transport (Inr \<lparr>status_code = 500, content = py ''oops''\<rparr>)"
      and outcome = "Inr \<lparr>status_code = 500, content = py ''oops''\<rparr>"
      and resp = "\<lparr>status_code = 500, content = py ''oops''\<rparr>"
      and e = "RequestException []" and headers = None and h = "[]" and bearer_token = None
      and upper = id and http_method = "py ''GET''" and url = "py ''http://h/r''"
      and params = PNone and json_data = PNone and timeout = "15 :: nat" and log = "[]"]
    status_error_no_retry [where session = None
      and requests_request = "stub_transport (Inr \<lparr>status_code = 200, content = py ''ok''\<rparr>)"
      and outcome = "Inr \<lparr>status_code = 200, content = py ''ok''\<rparr>"
      and resp = "\<lparr>status_code = 200, content = py ''ok''\<rparr>"
      and e = "RequestException []" and headers = None and h = "[]" and bearer_token = None
      and upper = id and http_method = "py ''GET''" and url = "py ''http://h/r''"
      and params = PNone and json_data = PNone and timeout = "15 :: nat" and log = "[]"]
  by (simp add: request_api_stub)

text \<open>
  Claim C10. With the empty string as bearer token and no key \<open>Authorization\<close> in the
  caller's headers, the transport is handed exactly the caller's headers, which have no
  \<open>Authorization\<close> entry.
\<close>

theorem empty_token_no_header:
  assumes "(case session of Some s \<Rightarrow> s | None \<Rightarrow> requests_request) = stub_transport outcome"
    and "caller = (case headers of None \<Rightarrow> [] | Some a \<Rightarrow> h ! a)"
    and "py ''Authorization'' \<notin> fst ` set caller"
  shows "snd (snd (request_api upper requests_request http_method url params json_data
                     headers (Some []) session timeout h log))
           = log @ [(\<lparr>req_method = upper http_method, req_url = url, req_params = params,
                      req_json = json_data, req_headers = length h,
                      req_timeout = timeout\<rparr>, caller)]
         \<and> map_of caller (py ''Authorization'') = None"
proof
  show "snd (snd (request_api upper requests_request http_method url params json_data
                     headers (Some []) session timeout h log))
           = log @ [(\<lparr>req_method = upper http_method, req_url = url, req_params = params,
                      req_json = json_data, req_headers = length h,
                      req_timeout = timeout\<rparr>, caller)]"
    by (intro request_api_stub_log [OF assms(1)]) (simp add: assms(2))
  show "map_of caller (py ''Authorization'') = None"
    using assms(3) by (simp add: map_of_eq_None_iff)
qed

theorem empty_token_no_header_witness:
  "py ''Authorization'' \<notin> fst ` set [(py ''Accept'', py ''text/plain'')]
   \<and> snd (snd (request_api id (stub_transport (Inr \<lparr>status_code = 200, content = []\<rparr>))
                 (py ''GET'') (py ''http://h/r'') PNone PNone (Some 0) (Some []) None
                 (15 :: nat) [[(py ''Accept'', py ''text/plain'')]] []))
       = [(\<lparr>req_method = py ''GET'', req_url = py ''http://h/r'', req_params = PNone,
            req_json = PNone, req_headers = 1, req_timeout = 15\<rparr>,
           [(py ''Accept'', py ''text/plain'')])]"
  using empty_token_no_header [where session = None
      and requests_request = "stub_transport (Inr \<lparr>status_code = 200, content = []\<rparr>)"
      and outcome = "Inr \<lparr>status_code = 200, content = []\<rparr>"
      and headers = "Some 0" and h = "[[(py ''Accept'', py ''text/plain'')]]"
      and caller = "[(py ''Accept'', py ''text/plain'')]"
      and upper = id and http_method = "py ''GET''" and url = "py ''http://h/r''"
      and params = PNone and json_data = PNone and timeout = "15 :: nat" and log = "[]"]
  by (simp add: py_def)

text \<open>The heap after the call: the heap before it, and the copy at a new address.\<close>

lemma request_api_heap:
  "fst (snd (request_api upper requests_request http_method url params json_data headers
               bearer_token session timeout h w))
     = h @ [case bearer_token of
              None \<Rightarrow> (case headers of None \<Rightarrow> [] | Some a \<Rightarrow> h ! a)
            | Some t \<Rightarrow>
                if t \<noteq> [] \<and> py ''Authorization''
                               \<notin> fst ` set (case headers of None \<Rightarrow> [] | Some a \<Rightarrow> h ! a)
                then (case headers of None \<Rightarrow> [] | Some a \<Rightarrow> h ! a)
                       @ [(py ''Authorization'', py ''Bearer '' @ t)]
                else (case headers of None \<Rightarrow> [] | Some a \<Rightarrow> h ! a)]"
  unfolding request_api_eq Let_def by (simp split: prod.split)

text \<open>
  Claim C8. The call changes no dict that existed before it, so the caller's header
  mapping is never mutated: the heap after the call is the heap before it followed by one
  new dict. The new dict is the copy of the caller's headers, to which the
  \<open>Authorization\<close> entry is added only when the token is a non-empty string and no key
  equal to \<open>Authorization\<close>, letter case included, is present; the transport is handed
  the address of that new dict.
\<close>

theorem caller_headers_not_mutated:
  assumes "caller = (case headers of None \<Rightarrow> [] | Some a \<Rightarrow> h ! a)"
    and "h' = fst (snd (request_api upper requests_request http_method url params json_data
                          headers bearer_token session timeout h w))"
  shows "take (length h) h' = h
       \<and> (\<forall>a < length h. h' ! a = h ! a)
       \<and> h' = h @ [case bearer_token of
                     None \<Rightarrow> caller
                   | Some t \<Rightarrow>
                       if t \<noteq> [] \<and> py ''Authorization'' \<notin> fst ` set caller
                       then caller @ [(py ''Authorization'', py ''Bearer '' @ t)]
                       else caller]
       \<and> snd (snd (request_api upper requests_request http_method url params json_data headers
                      bearer_token (Some (stub_transport outcome)) timeout h log))
           = log @ [(\<lparr>req_method = upper http_method, req_url = url, req_params = params,
                      req_json = json_data, req_headers = length h,
                      req_timeout = timeout\<rparr>, h' ! length h)]"
proof -
  have h': "h' = h @ [case bearer_token of
                     None \<Rightarrow> caller
                   | Some t \<Rightarrow>
                       if t \<noteq> [] \<and> py ''Authorization'' \<notin> fst ` set caller
                       then caller @ [(py ''Authorization'', py ''Bearer '' @ t)]
                       else caller]"
    by (simp add: assms(2) request_api_heap assms(1) cong: option.case_cong if_cong)
  have log: "snd (snd (request_api upper requests_request http_method url params json_data headers
                      bearer_token (Some (stub_transport outcome)) timeout h log))
           = log @ [(\<lparr>req_method = upper http_method, req_url = url, req_params = params,
                      req_json = json_data, req_headers = length h,
                      req_timeout = timeout\<rparr>, h' ! length h)]"
    by (intro request_api_stub_log) (simp_all add: h' assms(1) cong: option.case_cong if_cong)
  have "take (length h) h' = h" by (simp add: h')
  moreover have "\<forall>a < length h. h' ! a = h ! a" by (simp add: h' nth_append)
  ultimately show ?thesis using h' log by blast
qed

theorem caller_headers_not_mutated_witness:
  "fst (snd (request_api id (stub_transport (Inr \<lparr>status_code = 200, content = []\<rparr>))
               (py ''GET'') (py ''http://h/r'') PNone PNone (Some 0) (Some (py ''X'')) None
               (15 :: nat) [[(py ''authorization'', py ''old'')]] []))
     = [[(py ''authorization'', py ''old'')],
        [(py ''authorization'', py ''old''), (py ''Authorization'', py ''Bearer X'')]]
   \<and> fst (snd (request_api id (stub_transport (Inr \<lparr>status_code = 200, content = []\<rparr>))
               (py ''GET'') (py ''http://h/r'') PNone PNone (Some 0) (Some (py ''X'')) None
               (15 :: nat) [[(py ''Authorization'', py ''old'')]] []))
     = [[(py ''Authorization'', py ''old'')], [(py ''Authorization'', py ''old'')]]"
  using
    caller_headers_not_mutated [where headers = "Some 0"
      and h = "[[(py ''authorization'', py ''old'')]]"
      and caller = "[(py ''authorization'', py ''old'')]"
      and session = None
      and requests_request = "stub_transport (Inr \<lparr>status_code = 200, content = []\<rparr>)"
      and outcome = "Inr \<lparr>status_code = 200, content = []\<rparr>"
      and bearer_token = "Some (py ''X'')"
      and upper = id and http_method = "py ''GET''" and url = "py ''http://h/r''"
      and params = PNone and json_data = PNone and timeout = "15 :: nat"
      and w = "[]" and log = "[]", OF _ refl]
    caller_headers_not_mutated [where headers = "Some 0"
      and h = "[[(py ''Authorization'', py ''old'')]]"
      and caller = "[(py ''Authorization'', py ''old'')]"
      and session = None
      and requests_request = "stub_transport (Inr \<lparr>status_code = 200, content = []\<rparr>)"
      and outcome = "Inr \<lparr>status_code = 200, content = []\<rparr>"
      and bearer_token = "Some (py ''X'')"
      and upper = id and http_method = "py ''GET''" and url = "py ''http://h/r''"
      and params = PNone and json_data = PNone and timeout = "15 :: nat"
      and w = "[]" and log = "[]", OF _ refl]
  by (simp add: py_def)

end
